theory Spec2Isabelle
  imports Main
begin

section \<open>Python strings\<close>

text \<open>
  A Python \<open>str\<close> is a sequence of Unicode code points. The pattern of
  \<open>parse_content\<close> contains the en-dash U+2013, which is no byte, so a string is a
  list of code points (natural numbers) here and not a list of 8-bit characters.
  \<open>uni\<close> embeds an ASCII literal.
\<close>

type_synonym codepoint = nat
type_synonym pystr = "codepoint list"

definition uni :: "string \<Rightarrow> pystr" where
  "uni s = map of_char s"

text \<open>
  The character classes of the \<open>re\<close> module on \<open>str\<close> patterns: \<open>\d\<close> is the Unicode
  category Nd, \<open>\s\<close> is the white space of \<open>str.isspace\<close>, which \<open>str.strip\<close> uses
  too. Both tables are those of the Unicode database 14.0.0 of CPython 3.11, as inclusive
  ranges.
\<close>

definition in_ranges :: "codepoint \<Rightarrow> (codepoint \<times> codepoint) list \<Rightarrow> bool" where
  "in_ranges c rs = list_ex (\<lambda>(lo, hi). lo \<le> c \<and> c \<le> hi) rs"

definition decimal_ranges :: "(codepoint \<times> codepoint) list" where
  "decimal_ranges =
    [(48, 57), (1632, 1641), (1776, 1785), (1984, 1993), (2406, 2415), (2534, 2543),
     (2662, 2671), (2790, 2799), (2918, 2927), (3046, 3055), (3174, 3183), (3302, 3311),
     (3430, 3439), (3558, 3567), (3664, 3673), (3792, 3801), (3872, 3881), (4160, 4169),
     (4240, 4249), (6112, 6121), (6160, 6169), (6470, 6479), (6608, 6617), (6784, 6793),
     (6800, 6809), (6992, 7001), (7088, 7097), (7232, 7241), (7248, 7257), (42528, 42537),
     (43216, 43225), (43264, 43273), (43472, 43481), (43504, 43513), (43600, 43609),
     (44016, 44025), (65296, 65305), (66720, 66729), (68912, 68921), (69734, 69743),
     (69872, 69881), (69942, 69951), (70096, 70105), (70384, 70393), (70736, 70745),
     (70864, 70873), (71248, 71257), (71360, 71369), (71472, 71481), (71904, 71913),
     (72016, 72025), (72784, 72793), (73040, 73049), (73120, 73129), (92768, 92777),
     (92864, 92873), (93008, 93017), (120782, 120831), (123200, 123209), (123632, 123641),
     (125264, 125273), (130032, 130041)]"

definition space_ranges :: "(codepoint \<times> codepoint) list" where
  "space_ranges =
    [(9, 13), (28, 32), (133, 133), (160, 160), (5760, 5760), (8192, 8202), (8232, 8233),
     (8239, 8239), (8287, 8287), (12288, 12288)]"

definition is_digit :: "codepoint \<Rightarrow> bool" where
  "is_digit c = in_ranges c decimal_ranges"

definition is_space :: "codepoint \<Rightarrow> bool" where
  "is_space c = in_ranges c space_ranges"

text \<open>\<open>str.strip()\<close>, \<open>str.replace('.', ':')\<close>, \<open>str.endswith\<close> and \<open>str.split('\n')\<close>.\<close>

definition py_strip :: "pystr \<Rightarrow> pystr" where
  "py_strip s = rev (dropWhile is_space (rev (dropWhile is_space s)))"

definition replace_dot :: "pystr \<Rightarrow> pystr" where
  "replace_dot s = map (\<lambda>c. if c = 46 then 58 else c) s"

definition endswith :: "pystr \<Rightarrow> pystr \<Rightarrow> bool" where
  "endswith s suf = (length suf \<le> length s \<and> drop (length s - length suf) s = suf)"

fun split_nl :: "pystr \<Rightarrow> pystr list" where
  "split_nl [] = [[]]"
| "split_nl (c # cs) =
     (if c = 10 then [] # split_nl cs
      else (case split_nl cs of [] \<Rightarrow> [[c]] | l # ls \<Rightarrow> (c # l) # ls))"

definition join_nl :: "pystr list \<Rightarrow> pystr" where
  "join_nl xs = concat (case xs of [] \<Rightarrow> [] | y # ys \<Rightarrow> y # map (\<lambda>z. 10 # z) ys)"

section \<open>The pattern of \<open>parse_content\<close>\<close>

text \<open>
  \<^verbatim>\<open>(\d{1,2}[:.]\d{2})\s*[-\<dash>]\s*(\d{1,2}[:.]\d{2})\s*(.*)\<close>, where \<open>\<dash>\<close> stands for
  U+2013. Each piece of the pattern is a function from the text still to read to the list
  of its ways to match there, in the order in which the backtracking matcher tries them
  (greedy: the longest first). A way is the matched text and the text left.
\<close>

type_synonym way = "pystr \<times> pystr"

text \<open>\<open>\d{1,2}\<close>: two digits, else one.\<close>

definition digits12 :: "pystr \<Rightarrow> way list" where
  "digits12 s =
     concat (map (\<lambda>n. if n \<le> length s \<and> list_all is_digit (take n s)
                        then [(take n s, drop n s)] else []) [2, 1])"

text \<open>\<open>\d{2}\<close>.\<close>

definition digits2 :: "pystr \<Rightarrow> way list" where
  "digits2 s =
     (if 2 \<le> length s \<and> list_all is_digit (take 2 s) then [(take 2 s, drop 2 s)] else [])"

text \<open>A character set such as \<open>[:.]\<close> or \<open>[-\<dash>]\<close>.\<close>

definition one_of :: "codepoint list \<Rightarrow> pystr \<Rightarrow> way list" where
  "one_of cs s = (case s of [] \<Rightarrow> [] | c # r \<Rightarrow> if c \<in> set cs then [([c], r)] else [])"

text \<open>
  A greedy star over one character class, \<open>\s*\<close> or \<open>.*\<close>: read one more character of the
  class and go on; when that fails later, stop here.
\<close>

fun star :: "(codepoint \<Rightarrow> bool) \<Rightarrow> pystr \<Rightarrow> way list" where
  "star p [] = [([], [])]"
| "star p (c # r) =
     (if p c then map (\<lambda>(m, r'). (c # m, r')) (star p r) @ [([], c # r)] else [([], c # r)])"

text \<open>The dot matches every character but the line feed.\<close>

definition is_dot :: "codepoint \<Rightarrow> bool" where
  "is_dot c = (c \<noteq> 10)"

text \<open>A time token, \<open>\d{1,2}[:.]\d{2}\<close>.\<close>

definition time_tok :: "pystr \<Rightarrow> way list" where
  "time_tok s =
     List.bind (digits12 s) (\<lambda>(h, r1).
     List.bind (one_of [58, 46] r1) (\<lambda>(c, r2).
     List.bind (digits2 r2) (\<lambda>(m, r3). [(h @ c @ m, r3)])))"

text \<open>The whole pattern, at the start of \<open>s\<close>: the three groups of every way to match.\<close>

definition pattern_at :: "pystr \<Rightarrow> (pystr \<times> pystr \<times> pystr) list" where
  "pattern_at s =
     List.bind (time_tok s) (\<lambda>(g1, r1).
     List.bind (star is_space r1) (\<lambda>(w1, r2).
     List.bind (one_of [45, 8211] r2) (\<lambda>(d, r3).
     List.bind (star is_space r3) (\<lambda>(w2, r4).
     List.bind (time_tok r4) (\<lambda>(g2, r5).
     List.bind (star is_space r5) (\<lambda>(w3, r6).
     List.bind (star is_dot r6) (\<lambda>(g3, r7). [(g1, g2, g3)])))))))"

text \<open>\<open>re.match\<close>: the first way; \<open>re.search\<close>: the first position with a way.\<close>

definition re_match :: "pystr \<Rightarrow> (pystr \<times> pystr \<times> pystr) option" where
  "re_match s = (case pattern_at s of [] \<Rightarrow> None | g # _ \<Rightarrow> Some g)"

fun re_search :: "pystr \<Rightarrow> (pystr \<times> pystr \<times> pystr) option" where
  "re_search [] = re_match []"
| "re_search (c # cs) =
     (case re_match (c # cs) of Some g \<Rightarrow> Some g | None \<Rightarrow> re_search cs)"

section \<open>\<open>parse_content\<close>\<close>

text \<open>The dictionary appended for a matching line.\<close>

record candidate =
  title :: pystr
  time :: pystr
  s_iso :: pystr
  e_iso :: pystr

definition mk_event :: "pystr \<Rightarrow> pystr \<times> pystr \<times> pystr \<Rightarrow> candidate" where
  "mk_event date_str g =
     (case g of (s, e, t) \<Rightarrow>
       \<lparr> title = py_strip t,
         time = s @ uni ''-'' @ e,
         s_iso = date_str @ uni ''T'' @ replace_dot s @ uni '':00'',
         e_iso = date_str @ uni ''T'' @ replace_dot e @ uni '':00'' \<rparr>)"

text \<open>The loop over the lines, with the list \<open>events\<close> it appends to.\<close>

fun scan_lines :: "pystr \<Rightarrow> candidate list \<Rightarrow> pystr list \<Rightarrow> candidate list" where
  "scan_lines date_str events [] = events"
| "scan_lines date_str events (line # rest) =
     scan_lines date_str
       (case re_search line of
          None \<Rightarrow> events
        | Some g \<Rightarrow> events @ [mk_event date_str g])
       rest"

text \<open>
  \<open>extract_text\<close> is the first half of \<open>parse_content\<close>, which fills the variable
  \<open>text\<close>. \<open>file_bytes\<close> is the uploaded file as it is handed to the parsers.
  The two document parsers are libraries outside the repository (pdfplumber and
  BeautifulSoup); they are parameters. \<open>pdf_pages\<close> gives what \<open>extract_text()\<close>
  returns for each page, in page order (\<open>None\<close> for a page without text), \<open>html_text\<close>
  what \<open>get_text(separator='\n')\<close> returns. Either may raise: \<open>Raised\<close> is an
  exception of a library, with its message.
\<close>

datatype exn = IndexError | Raised pystr

record 'b parsers =
  pdf_pages :: "'b \<Rightarrow> exn + pystr option list"
  html_text :: "'b \<Rightarrow> exn + pystr"

text \<open>The truth value of \<open>p.extract_text()\<close>: \<open>None\<close> and the empty string are false.\<close>

definition page_texts :: "pystr option list \<Rightarrow> pystr list" where
  "page_texts ps = concat (map (\<lambda>p. case p of None \<Rightarrow> [] | Some t \<Rightarrow> if t = [] then [] else [t]) ps)"

definition extract_text :: "'b parsers \<Rightarrow> 'b \<Rightarrow> pystr \<Rightarrow> exn + pystr" where
  "extract_text lib file_bytes filename =
     (if endswith filename (uni ''.pdf'') then
        (case pdf_pages lib file_bytes of
           Inl e \<Rightarrow> Inl e
         | Inr ps \<Rightarrow> Inr (join_nl (page_texts ps)))
      else if endswith filename (uni ''.html'') then html_text lib file_bytes
      else Inr [])"

definition parse_content :: "'b parsers \<Rightarrow> 'b \<Rightarrow> pystr \<Rightarrow> pystr \<Rightarrow> exn + candidate list" where
  "parse_content lib file_bytes filename date_str =
     (case extract_text lib file_bytes filename of
        Inl e \<Rightarrow> Inl e
      | Inr text \<Rightarrow> Inr (scan_lines date_str [] (split_nl text)))"

section \<open>\<open>export\<close>\<close>

text \<open>
  \<open>xs[i]\<close> with Python's negative indices, and \<open>s.split('T')[1][:5]\<close>: the text between
  the first and the second \<open>T\<close>, cut to five characters; without a \<open>T\<close> the index 1
  is out of range.
\<close>

definition py_index :: "'a list \<Rightarrow> int \<Rightarrow> exn + 'a" where
  "py_index xs i =
     (if 0 \<le> i \<and> i < int (length xs) then Inr (xs ! nat i)
      else if i < 0 \<and> - int (length xs) \<le> i then Inr (xs ! nat (int (length xs) + i))
      else Inl IndexError)"

definition after_T :: "pystr \<Rightarrow> exn + pystr" where
  "after_T s =
     (if 84 \<in> set s
      then Inr (take 5 (takeWhile (\<lambda>c. c \<noteq> 84) (tl (dropWhile (\<lambda>c. c \<noteq> 84) s))))
      else Inl IndexError)"

definition then_do :: "exn + 'a \<Rightarrow> ('a \<Rightarrow> exn + 'b) \<Rightarrow> exn + 'b" where
  "then_do r f = (case r of Inl e \<Rightarrow> Inl e | Inr x \<Rightarrow> f x)"

text \<open>
  The calendar library (the ics package) and \<open>datetime\<close> are outside the repository and
  are parameters: \<open>fromisoformat\<close> parses a timestamp or raises, \<open>new_event\<close> stands for
  \<open>Event()\<close> followed by the assignments of \<open>name\<close>, \<open>begin\<close> and \<open>end\<close> (which may
  raise), and \<open>serialize\<close> for \<open>cal.serialize()\<close> on the events added to \<open>cal.events\<close>,
  given in the order of the \<open>add\<close> calls.
\<close>

record ('dt, 'ev) calendar =
  fromisoformat :: "pystr \<Rightarrow> exn + 'dt"
  new_event :: "pystr \<Rightarrow> 'dt \<Rightarrow> 'dt \<Rightarrow> exn + 'ev"
  serialize :: "'ev list \<Rightarrow> pystr"

text \<open>One turn of the loop: the event, and the pair of title and time appended to \<open>saved_events\<close>.\<close>

definition export_item ::
  "('dt, 'ev) calendar \<Rightarrow> pystr list \<Rightarrow> pystr list \<Rightarrow> pystr list \<Rightarrow> int \<Rightarrow> exn + ('ev \<times> pystr \<times> pystr)"
where
  "export_item lib titles starts ends i =
     then_do (py_index starts i) (\<lambda>s.
     then_do (fromisoformat lib s) (\<lambda>start_dt.
     then_do (py_index ends i) (\<lambda>e.
     then_do (fromisoformat lib e) (\<lambda>end_dt.
     then_do (py_index titles i) (\<lambda>t.
     then_do (new_event lib t start_dt end_dt) (\<lambda>ev.
     then_do (after_T s) (\<lambda>tm. Inr (ev, t, tm))))))))"

fun export_loop ::
  "('dt, 'ev) calendar \<Rightarrow> pystr list \<Rightarrow> pystr list \<Rightarrow> pystr list \<Rightarrow>
   'ev list \<Rightarrow> (pystr \<times> pystr) list \<Rightarrow> int list \<Rightarrow> exn + ('ev list \<times> (pystr \<times> pystr) list)"
where
  "export_loop lib titles starts ends cal saved [] = Inr (cal, saved)"
| "export_loop lib titles starts ends cal saved (i # rest) =
     (case export_item lib titles starts ends i of
        Inl e \<Rightarrow> Inl e
      | Inr (ev, sv) \<Rightarrow> export_loop lib titles starts ends (cal @ [ev]) (saved @ [sv]) rest)"

text \<open>\<open>ics_data.replace("Z", "")\<close>.\<close>

definition remove_Z :: "pystr \<Rightarrow> pystr" where
  "remove_Z s = filter (\<lambda>c. c \<noteq> 90) s"

text \<open>
  The response: the answer 422 to a request that lacks a required form field, the
  redirection of a visitor who is not logged in, or the file. The record keeps the text
  written to the file, the list stored in the history and the name of the download; the
  database and the file system themselves are not modelled.
\<close>

record export_result =
  ics_fixed :: pystr
  saved_events :: "(pystr \<times> pystr) list"
  download_name :: pystr

datatype response =
  UnprocessableEntity "pystr list" | RedirectResponse pystr | FileResponse export_result

text \<open>
  The route declares \<open>titles\<close>, \<open>starts\<close>, \<open>ends\<close> and \<open>selected\<close> as required form
  fields, \<open>List[...] = Form(...)\<close>. A form cannot carry an empty list: a field with no
  value at all is a missing field, and the request is answered 422 with the missing fields
  before the body of \<open>export\<close> runs.
\<close>

definition missing_fields ::
  "pystr list \<Rightarrow> pystr list \<Rightarrow> pystr list \<Rightarrow> int list \<Rightarrow> pystr list"
where
  "missing_fields titles starts ends selected =
     (if titles = [] then [uni ''titles''] else []) @
     (if starts = [] then [uni ''starts''] else []) @
     (if ends = [] then [uni ''ends''] else []) @
     (if selected = [] then [uni ''selected''] else [])"

definition login_url :: pystr where
  "login_url = uni ''/?error='' @
     [1042, 1086, 1081, 1076, 1080, 1090, 1077, 32, 1074, 32, 1089, 1080, 1089, 1090, 1077, 1084, 1091]"

definition export ::
  "('dt, 'ev) calendar \<Rightarrow> int option \<Rightarrow> pystr list \<Rightarrow> pystr list \<Rightarrow> pystr list \<Rightarrow>
   int list \<Rightarrow> pystr \<Rightarrow> exn + response"
where
  "export lib user_id titles starts ends selected schedule_name =
     (if missing_fields titles starts ends selected \<noteq> [] then
        Inr (UnprocessableEntity (missing_fields titles starts ends selected))
      else if user_id = None \<or> user_id = Some 0 then Inr (RedirectResponse login_url)
      else
        (case export_loop lib titles starts ends [] [] selected of
           Inl e \<Rightarrow> Inl e
         | Inr (cal, saved) \<Rightarrow>
             Inr (FileResponse
               \<lparr> ics_fixed = remove_Z (serialize lib cal),
                 saved_events = saved,
                 download_name = schedule_name @ uni ''.ics'' \<rparr>)))"


section \<open>Notions of the specification\<close>

text \<open>
  A time token as the specification describes it: one or two digits, a colon or a period,
  two digits.
\<close>

fun time_token :: "pystr \<Rightarrow> bool" where
  "time_token [h, c, m1, m2] =
     (is_digit h \<and> (c = 58 \<or> c = 46) \<and> is_digit m1 \<and> is_digit m2)"
| "time_token [h1, h2, c, m1, m2] =
     (is_digit h1 \<and> is_digit h2 \<and> (c = 58 \<or> c = 46) \<and> is_digit m1 \<and> is_digit m2)"
| "time_token _ = False"

text \<open>
  A time range: two time tokens joined by a hyphen or an en-dash, with optional white
  space around it. \<open>range_at s\<close>: the text \<open>s\<close> begins with a time range;
  \<open>contains_range line\<close>: a time range begins somewhere in the line.
\<close>

definition time_range :: "pystr \<Rightarrow> pystr \<Rightarrow> pystr \<Rightarrow> bool" where
  "time_range t1 t2 r =
     (\<exists>w1 d w2. r = t1 @ w1 @ [d] @ w2 @ t2 \<and> time_token t1 \<and> time_token t2 \<and>
        list_all is_space w1 \<and> list_all is_space w2 \<and> (d = 45 \<or> d = 8211))"

definition range_at :: "pystr \<Rightarrow> bool" where
  "range_at s = (\<exists>t1 t2 r rest. s = r @ rest \<and> time_range t1 t2 r)"

definition contains_range :: "pystr \<Rightarrow> bool" where
  "contains_range line = (\<exists>pre s. line = pre @ s \<and> range_at s)"

text \<open>The candidate that a range with the tokens \<open>t1\<close> and \<open>t2\<close>, followed by \<open>rest\<close>, stands for.\<close>

definition candidate_of :: "pystr \<Rightarrow> pystr \<Rightarrow> pystr \<Rightarrow> pystr \<Rightarrow> candidate" where
  "candidate_of date_str t1 t2 rest =
     \<lparr> title = py_strip rest,
       time = t1 @ uni ''-'' @ t2,
       s_iso = date_str @ uni ''T'' @ replace_dot t1 @ uni '':00'',
       e_iso = date_str @ uni ''T'' @ replace_dot t2 @ uni '':00'' \<rparr>"

text \<open>
  The clock value of a token written with ASCII digits, in minutes, and whether it is a
  time of day.
\<close>

definition digit_value :: "codepoint \<Rightarrow> nat" where
  "digit_value c = c - 48"

fun clock :: "pystr \<Rightarrow> nat \<times> nat" where
  "clock [h, c, m1, m2] = (digit_value h, 10 * digit_value m1 + digit_value m2)"
| "clock [h1, h2, c, m1, m2] =
     (10 * digit_value h1 + digit_value h2, 10 * digit_value m1 + digit_value m2)"
| "clock _ = (0, 0)"

definition clock_in_range :: "pystr \<Rightarrow> bool" where
  "clock_in_range t = (fst (clock t) < 24 \<and> snd (clock t) < 60)"

definition clock_minutes :: "pystr \<Rightarrow> nat" where
  "clock_minutes t = 60 * fst (clock t) + snd (clock t)"

text \<open>
  The pattern read without backtracking: the token at the start, all the white space, the
  dash, all the white space, the second token, all the white space, the rest of the line.
  \<open>re_match_det\<close> below proves that the matcher finds exactly this.
\<close>

definition tok_split :: "pystr \<Rightarrow> way option" where
  "tok_split s =
     (if time_token (take 5 s) then Some (take 5 s, drop 5 s)
      else if time_token (take 4 s) then Some (take 4 s, drop 4 s)
      else None)"

definition first_way :: "pystr \<Rightarrow> (pystr \<times> pystr \<times> pystr) option" where
  "first_way s =
     (case tok_split s of
        None \<Rightarrow> None
      | Some (g1, r1) \<Rightarrow>
          (case dropWhile is_space r1 of
             [] \<Rightarrow> None
           | d # r3 \<Rightarrow>
               if d = 45 \<or> d = 8211 then
                 (case tok_split (dropWhile is_space r3) of
                    None \<Rightarrow> None
                  | Some (g2, r5) \<Rightarrow> Some (g1, g2, takeWhile is_dot (dropWhile is_space r5)))
               else None))"

text \<open>
  A small calendar library to run \<open>export\<close> on. It stands in for the ics package and
  follows the outline of its output only: a timestamp is kept as text, with the colons and
  hyphens taken out and the \<open>Z\<close> of UTC added.
\<close>

definition crlf :: pystr where
  "crlf = [13, 10]"

definition demo_event :: "pystr \<times> pystr \<times> pystr \<Rightarrow> pystr" where
  "demo_event ev =
     (case ev of (name, begin, end) \<Rightarrow>
        uni ''BEGIN:VEVENT'' @ crlf @
        uni ''DTEND:'' @ filter (\<lambda>c. c \<noteq> 45 \<and> c \<noteq> 58) end @ uni ''Z'' @ crlf @
        uni ''DTSTART:'' @ filter (\<lambda>c. c \<noteq> 45 \<and> c \<noteq> 58) begin @ uni ''Z'' @ crlf @
        uni ''SUMMARY:'' @ name @ crlf @
        uni ''END:VEVENT'' @ crlf)"

definition demo_calendar :: "(pystr, pystr \<times> pystr \<times> pystr) calendar" where
  "demo_calendar =
     \<lparr> fromisoformat = (\<lambda>s. if length s = 19 \<and> s ! 10 = 84 then Inr s
                            else Inl (Raised (uni ''Invalid isoformat string''))),
       new_event = (\<lambda>name begin end. Inr (name, begin, end)),
       serialize = (\<lambda>evs. uni ''BEGIN:VCALENDAR'' @ crlf @ uni ''VERSION:2.0'' @ crlf @
                            concat (map demo_event evs) @ uni ''END:VCALENDAR'') \<rparr>"

definition demo_parsers :: "pystr parsers" where
  "demo_parsers =
     \<lparr> pdf_pages = (\<lambda>b. Inl (Raised (uni ''No /Root object''))),
       html_text = (\<lambda>b. Inr b) \<rparr>"

section \<open>The character tables\<close>

lemma not_digit_marks:
  "\<not> is_digit 58" "\<not> is_digit 46" "\<not> is_digit 45" "\<not> is_digit 8211" "\<not> is_digit 10"
  by (simp_all add: is_digit_def in_ranges_def decimal_ranges_def)

lemma not_space_marks:
  "\<not> is_space 45" "\<not> is_space 8211" "\<not> is_space 58" "\<not> is_space 46"
  by (simp_all add: is_space_def in_ranges_def space_ranges_def)

lemma digit_envelope:
  "is_digit c \<Longrightarrow>
   (48 \<le> c \<and> c \<le> 57) \<or> (1632 \<le> c \<and> c \<le> 4249) \<or> (6112 \<le> c \<and> c \<le> 7257) \<or> 42528 \<le> c"
  by (auto simp add: is_digit_def in_ranges_def decimal_ranges_def)

lemma space_envelope:
  "is_space c \<Longrightarrow>
   c \<le> 47 \<or> (58 \<le> c \<and> c \<le> 1631) \<or> (4250 \<le> c \<and> c \<le> 6111) \<or> (7258 \<le> c \<and> c \<le> 42527)"
  by (auto simp add: is_space_def in_ranges_def space_ranges_def)

lemma digit_not_space: "is_digit c \<Longrightarrow> \<not> is_space c"
  using digit_envelope [of c] space_envelope [of c] by arith

section \<open>The matcher finds the first way without backtracking\<close>

lemma list_shapes:
  obtains "s = []" | a where "s = [a]" | a b where "s = [a, b]" | a b c where "s = [a, b, c]"
  | a b c d where "s = [a, b, c, d]" | a b c d e r where "s = a # b # c # d # e # r"
  by (metis list.exhaust)

lemma time_tok_det: "time_tok s = (case tok_split s of None \<Rightarrow> [] | Some w \<Rightarrow> [w])"
  by (cases s rule: list_shapes)
     (auto simp add: time_tok_def tok_split_def digits12_def digits2_def one_of_def not_digit_marks)

lemma tok_split_space: "is_space c \<Longrightarrow> tok_split (c # r) = None"
  by (cases r rule: list_shapes) (auto simp add: tok_split_def dest: digit_not_space)

lemma star_skip:
  "(\<And>w c r. p c \<Longrightarrow> f (w, c # r) = []) \<Longrightarrow>
   concat (map f (star p s)) = f (takeWhile p s, dropWhile p s)"
proof (induction s arbitrary: f)
  case Nil
  show ?case by simp
next
  case (Cons c r)
  show ?case
  proof (cases "p c")
    case True
    have "concat (map (\<lambda>(m, r'). f (c # m, r')) (star p r))
          = (\<lambda>(m, r'). f (c # m, r')) (takeWhile p r, dropWhile p r)"
      by (rule Cons.IH) (simp add: Cons.prems)
    with True Cons.prems show ?thesis
      by (simp add: comp_def case_prod_unfold)
  next
    case False
    then show ?thesis by simp
  qed
qed

lemma star_head: "\<exists>more. star p s = (takeWhile p s, dropWhile p s) # more"
  by (induction s) auto

lemma re_match_det: "re_match s = first_way s"
proof -
  define tail3 where "tail3 g1 g2 r5 =
     concat (map (\<lambda>(w3, r6). concat (map (\<lambda>(g3, r7). [(g1, g2, g3)]) (star is_dot r6)))
       (star is_space r5))" for g1 g2 :: pystr and r5
  define stage2 where "stage2 g1 r3 =
     concat (map (\<lambda>(w2, r4). concat (map (\<lambda>(g2, r5). tail3 g1 g2 r5) (time_tok r4)))
       (star is_space r3))" for g1 :: pystr and r3
  define stage1 where "stage1 g1 r1 =
     concat (map (\<lambda>(w1, r2). concat (map (\<lambda>(d, r3). stage2 g1 r3) (one_of [45, 8211] r2)))
       (star is_space r1))" for g1 :: pystr and r1
  have t3: "\<exists>more. tail3 g1 g2 r5 = (g1, g2, takeWhile is_dot (dropWhile is_space r5)) # more"
    for g1 g2 r5
  proof -
    obtain m1 where m1: "star is_space r5 = (takeWhile is_space r5, dropWhile is_space r5) # m1"
      using star_head by blast
    obtain m2 where m2: "star is_dot (dropWhile is_space r5)
        = (takeWhile is_dot (dropWhile is_space r5), dropWhile is_dot (dropWhile is_space r5)) # m2"
      using star_head by blast
    show ?thesis by (simp add: tail3_def m1 m2)
  qed
  have s2: "stage2 g1 r3 =
      (case tok_split (dropWhile is_space r3) of None \<Rightarrow> [] | Some (g2, r5) \<Rightarrow> tail3 g1 g2 r5)"
    for g1 r3
    unfolding stage2_def
    by (subst star_skip) (auto simp add: time_tok_det tok_split_space split: option.split)
  have s1: "stage1 g1 r1 =
      (case dropWhile is_space r1 of [] \<Rightarrow> []
       | d # r3 \<Rightarrow> if d = 45 \<or> d = 8211 then stage2 g1 r3 else [])"
    for g1 r1
  proof -
    have one: "concat (map (\<lambda>(d, r3). stage2 g1 r3) (one_of [45, 8211] x)) =
        (case x of [] \<Rightarrow> [] | d # r3 \<Rightarrow> if d = 45 \<or> d = 8211 then stage2 g1 r3 else [])"
      for x
      by (cases x) (simp_all add: one_of_def)
    have "concat (map (\<lambda>(d, r3). stage2 g1 r3) (one_of [45, 8211] (c # r))) = []"
      if "is_space c" for c r
      using that not_space_marks by (auto simp add: one_of_def)
    then have "stage1 g1 r1 =
        concat (map (\<lambda>(d, r3). stage2 g1 r3) (one_of [45, 8211] (dropWhile is_space r1)))"
      unfolding stage1_def by (subst star_skip) simp_all
    then show ?thesis
      by (simp only: one)
  qed
  have p: "pattern_at s = (case tok_split s of None \<Rightarrow> [] | Some (g1, r1) \<Rightarrow> stage1 g1 r1)"
    by (simp add: pattern_at_def List.bind_def time_tok_det stage1_def stage2_def tail3_def
          split: option.split)
  show ?thesis
  proof (cases "first_way s")
    case None
    then show ?thesis
      by (auto simp add: re_match_def p s1 s2 first_way_def
            split: option.splits list.splits if_splits)
  next
    case (Some g)
    then obtain g1 r1 d r3 g2 r5 where
      a: "tok_split s = Some (g1, r1)" "dropWhile is_space r1 = d # r3" "d = 45 \<or> d = 8211"
         "tok_split (dropWhile is_space r3) = Some (g2, r5)"
         "g = (g1, g2, takeWhile is_dot (dropWhile is_space r5))"
      by (auto simp add: first_way_def split: option.splits list.splits if_splits)
    obtain more where "tail3 g1 g2 r5 = g # more" using t3 a(5) by blast
    with a Some show ?thesis
      by (auto simp add: re_match_def p s1 s2)
  qed
qed

section \<open>Time ranges and the matcher\<close>

lemma token_shape:
  "time_token t \<Longrightarrow>
   (\<exists>h c m1 m2. t = [h, c, m1, m2] \<and> is_digit h \<and> (c = 58 \<or> c = 46) \<and>
      is_digit m1 \<and> is_digit m2) \<or>
   (\<exists>h1 h2 c m1 m2. t = [h1, h2, c, m1, m2] \<and> is_digit h1 \<and> is_digit h2 \<and>
      (c = 58 \<or> c = 46) \<and> is_digit m1 \<and> is_digit m2)"
  by (cases t rule: time_token.cases) auto

lemma tok_split_token: "time_token t \<Longrightarrow> tok_split (t @ r) = Some (t, r)"
  using token_shape [of t] not_digit_marks
  by (cases r) (auto simp add: tok_split_def)

lemma tok_split_SomeD: "tok_split s = Some (t, r) \<Longrightarrow> s = t @ r \<and> time_token t"
  by (auto simp add: tok_split_def split: if_splits)

lemma token_starts_digit: "time_token t \<Longrightarrow> \<exists>x xs. t = x # xs \<and> is_digit x"
  by (cases t rule: time_token.cases) auto

lemma token_not_space: "time_token t \<Longrightarrow> dropWhile is_space (t @ r) = t @ r"
  using token_starts_digit [of t] by (auto dest: digit_not_space)

lemma skip_space_dash:
  "list_all is_space w \<Longrightarrow> d = 45 \<or> d = 8211 \<Longrightarrow> dropWhile is_space (w @ d # r) = d # r"
  using not_space_marks by (auto simp add: list_all_iff dropWhile_append2)

lemma first_way_range:
  assumes "time_token t1" "time_token t2" "list_all is_space w1" "list_all is_space w2"
    and "d = 45 \<or> d = 8211"
  shows "first_way (t1 @ w1 @ [d] @ w2 @ t2 @ rest)
         = Some (t1, t2, takeWhile is_dot (dropWhile is_space rest))"
proof -
  have a: "tok_split (t1 @ w1 @ [d] @ w2 @ t2 @ rest) = Some (t1, w1 @ [d] @ w2 @ t2 @ rest)"
    using assms(1) by (rule tok_split_token)
  have b: "dropWhile is_space (w1 @ [d] @ w2 @ t2 @ rest) = d # w2 @ t2 @ rest"
    using skip_space_dash [OF assms(3) assms(5)] by simp
  have c: "dropWhile is_space (w2 @ t2 @ rest) = t2 @ rest"
    using assms(4) assms(2) by (simp add: list_all_iff dropWhile_append2 token_not_space)
  have e: "tok_split (t2 @ rest) = Some (t2, rest)"
    using assms(2) by (rule tok_split_token)
  show ?thesis
    using a b c e assms(5) by (simp add: first_way_def)
qed

lemma first_way_SomeD:
  assumes "first_way s = Some (g1, g2, g3)"
  shows "\<exists>w1 d w2 rest. s = g1 @ w1 @ [d] @ w2 @ g2 @ rest \<and> time_token g1 \<and> time_token g2 \<and>
           list_all is_space w1 \<and> list_all is_space w2 \<and> (d = 45 \<or> d = 8211) \<and>
           g3 = takeWhile is_dot (dropWhile is_space rest)"
proof -
  from assms obtain r1 d r3 r5 where
    a: "tok_split s = Some (g1, r1)" and b: "dropWhile is_space r1 = d # r3"
    and d: "d = 45 \<or> d = 8211" and c: "tok_split (dropWhile is_space r3) = Some (g2, r5)"
    and g: "g3 = takeWhile is_dot (dropWhile is_space r5)"
    by (auto simp add: first_way_def split: option.splits list.splits if_splits)
  have s: "s = g1 @ r1" and t1: "time_token g1" using tok_split_SomeD [OF a] by simp_all
  have r3: "dropWhile is_space r3 = g2 @ r5" and t2: "time_token g2"
    using tok_split_SomeD [OF c] by simp_all
  have "r1 = takeWhile is_space r1 @ dropWhile is_space r1" by simp
  then have r1: "r1 = takeWhile is_space r1 @ [d] @ r3" using b by simp
  have "r3 = takeWhile is_space r3 @ dropWhile is_space r3" by simp
  then have r3': "r3 = takeWhile is_space r3 @ g2 @ r5" using r3 by simp
  have "s = g1 @ takeWhile is_space r1 @ [d] @ takeWhile is_space r3 @ g2 @ r5"
    using s r1 r3' by simp
  moreover have "list_all is_space (takeWhile is_space r1)" "list_all is_space (takeWhile is_space r3)"
    by (auto simp add: list_all_iff dest: set_takeWhileD)
  ultimately show ?thesis using t1 t2 d g by blast
qed

lemma range_at_iff: "range_at s \<longleftrightarrow> first_way s \<noteq> None"
proof
  assume "range_at s"
  then obtain t1 t2 w1 d w2 rest where
    "s = (t1 @ w1 @ [d] @ w2 @ t2) @ rest" "time_token t1" "time_token t2"
    "list_all is_space w1" "list_all is_space w2" "d = 45 \<or> d = 8211"
    by (auto simp add: range_at_def time_range_def)
  then show "first_way s \<noteq> None"
    using first_way_range [of t1 t2 w1 w2 d rest] by simp
next
  assume "first_way s \<noteq> None"
  then obtain g1 g2 g3 where "first_way s = Some (g1, g2, g3)" by auto
  from first_way_SomeD [OF this] obtain w1 d w2 rest where
    "s = (g1 @ w1 @ [d] @ w2 @ g2) @ rest" "time_token g1" "time_token g2"
    "list_all is_space w1" "list_all is_space w2" "d = 45 \<or> d = 8211"
    by auto
  then show "range_at s"
    unfolding range_at_def time_range_def by blast
qed

lemma contains_range_Nil: "\<not> contains_range []"
  by (simp add: contains_range_def range_at_iff first_way_def tok_split_def)

lemma contains_range_Cons:
  "contains_range (c # cs) \<longleftrightarrow> range_at (c # cs) \<or> contains_range cs"
  unfolding contains_range_def
  by (auto simp add: Cons_eq_append_conv)

lemma re_search_None_iff: "re_search line = None \<longleftrightarrow> \<not> contains_range line"
proof (induction line)
  case Nil
  show ?case using contains_range_Nil
    by (simp add: re_match_det first_way_def tok_split_def)
next
  case (Cons c cs)
  then show ?case
    by (auto simp add: contains_range_Cons range_at_iff re_match_det split: option.splits)
qed

lemma re_search_leftmost:
  "first_way s = Some g \<Longrightarrow> \<forall>i<length pre. \<not> range_at (drop i (pre @ s)) \<Longrightarrow>
   re_search (pre @ s) = Some g"
proof (induction pre)
  case Nil
  then show ?case by (cases s) (simp_all add: re_match_det)
next
  case (Cons c pre)
  have "\<not> range_at (c # pre @ s)" using Cons.prems(2) by force
  then have "re_match (c # pre @ s) = None"
    unfolding re_match_det range_at_iff by blast
  moreover have "\<forall>i<length pre. \<not> range_at (drop i (pre @ s))"
  proof (intro allI impI)
    fix i assume "i < length pre"
    then have "\<not> range_at (drop (Suc i) ((c # pre) @ s))" using Cons.prems(2) by auto
    then show "\<not> range_at (drop i (pre @ s))" by simp
  qed
  ultimately show ?case using Cons.IH Cons.prems(1) by simp
qed

lemma scan_lines_append:
  "scan_lines d events ls = events @ concat (map (\<lambda>l. scan_lines d [] [l]) ls)"
proof (induction ls arbitrary: events)
  case Nil
  show ?case by simp
next
  case (Cons l ls)
  show ?case
    by (subst scan_lines.simps) (simp add: Cons.IH split: option.split)
qed

lemma strip_rest:
  "10 \<notin> set rest \<Longrightarrow> py_strip (takeWhile is_dot (dropWhile is_space rest)) = py_strip rest"
proof -
  assume "10 \<notin> set rest"
  then have "\<forall>x\<in>set (dropWhile is_space rest). is_dot x"
    by (auto simp add: is_dot_def dest: set_dropWhileD)
  then have eq: "takeWhile is_dot (dropWhile is_space rest) = dropWhile is_space rest"
    by simp
  show ?thesis unfolding py_strip_def by (simp only: eq dropWhile_idem)
qed

section \<open>Evaluation and the loop over the lines\<close>

lemma digit_ascii: "c < 1632 \<Longrightarrow> is_digit c \<longleftrightarrow> 48 \<le> c \<and> c \<le> 57"
proof
  assume "c < 1632" "is_digit c"
  then show "48 \<le> c \<and> c \<le> 57" using digit_envelope [of c] by arith
next
  assume "48 \<le> c \<and> c \<le> 57"
  then show "is_digit c" by (simp add: is_digit_def in_ranges_def decimal_ranges_def)
qed

lemma space_ascii: "c < 133 \<Longrightarrow> is_space c \<longleftrightarrow> (9 \<le> c \<and> c \<le> 13) \<or> (28 \<le> c \<and> c \<le> 32)"
  by (auto simp add: is_space_def in_ranges_def space_ranges_def)

lemmas text_eval = uni_def py_strip_def replace_dot_def is_dot_def digit_ascii space_ascii
  not_digit_marks not_space_marks

lemma re_search_Nil: "re_search [] = None"
  by (simp add: re_match_det first_way_def tok_split_def)

lemma re_search_SomeD: "re_search line = Some g \<Longrightarrow> \<exists>pre s. line = pre @ s \<and> first_way s = Some g"
proof (induction line)
  case Nil
  then show ?case using re_search_Nil by simp
next
  case (Cons c cs)
  show ?case
  proof (cases "re_match (c # cs)")
    case None
    with Cons obtain pre s where "cs = pre @ s" "first_way s = Some g" by auto
    then have "c # cs = (c # pre) @ s" by simp
    then show ?thesis using \<open>first_way s = Some g\<close> by blast
  next
    case (Some h)
    with Cons.prems have "first_way (c # cs) = Some g" by (simp add: re_match_det)
    then show ?thesis by (metis append_Nil)
  qed
qed

lemma scan_range_line:
  assumes "time_range t1 t2 r" and "\<forall>i<length pre. \<not> range_at (drop i (pre @ r @ rest))"
    and "10 \<notin> set rest"
  shows "scan_lines date_str [] [pre @ r @ rest] = [candidate_of date_str t1 t2 rest]"
proof -
  from assms(1) obtain w1 d w2 where
    r: "r = t1 @ w1 @ [d] @ w2 @ t2" and t: "time_token t1" "time_token t2"
    and w: "list_all is_space w1" "list_all is_space w2" and d: "d = 45 \<or> d = 8211"
    by (auto simp add: time_range_def)
  have "first_way (r @ rest) = Some (t1, t2, takeWhile is_dot (dropWhile is_space rest))"
    using first_way_range [OF t w d, of rest] by (simp add: r)
  then have "re_search (pre @ r @ rest) = Some (t1, t2, takeWhile is_dot (dropWhile is_space rest))"
    using assms(2) by (rule re_search_leftmost)
  then show ?thesis
    by (simp add: mk_event_def candidate_of_def strip_rest [OF assms(3)])
qed

lemma scan_no_range: "\<not> contains_range line \<Longrightarrow> scan_lines d events (line # ls) = scan_lines d events ls"
  using re_search_None_iff [of line] by simp

lemma scan_single_length:
  "length (scan_lines d [] [line]) = (if contains_range line then 1 else 0)"
  using re_search_None_iff [of line] by (auto split: option.splits)

lemmas match_eval = re_match_det first_way_def tok_split_def mk_event_def text_eval

lemma time_rangeI:
  "time_token t1 \<Longrightarrow> time_token t2 \<Longrightarrow> list_all is_space w1 \<Longrightarrow> list_all is_space w2 \<Longrightarrow>
   d = 45 \<or> d = 8211 \<Longrightarrow> time_range t1 t2 (t1 @ w1 @ [d] @ w2 @ t2)"
  unfolding time_range_def by blast

lemma time_range_ends:
  "time_range t1 t2 r \<Longrightarrow> r \<noteq> [] \<and> \<not> is_space (hd r) \<and> \<not> is_space (last r)"
proof -
  assume "time_range t1 t2 r"
  then obtain w1 d w2 where r: "r = t1 @ w1 @ [d] @ w2 @ t2" and t: "time_token t1" "time_token t2"
    by (auto simp add: time_range_def)
  from token_shape [OF t(1)] have "t1 \<noteq> [] \<and> is_digit (hd t1)" by auto
  moreover from token_shape [OF t(2)] have "t2 \<noteq> [] \<and> is_digit (last t2)" by auto
  ultimately show ?thesis using r by (auto simp add: digit_not_space)
qed

lemma strip_keeps_core:
  assumes "m \<noteq> []" "\<not> is_space (hd m)" "\<not> is_space (last m)"
  shows "py_strip (a @ m @ b) = dropWhile is_space a @ m @ rev (dropWhile is_space (rev b))"
proof -
  obtain x xs where m: "m = x # xs" using assms(1) by (cases m) auto
  obtain y ys where m': "m = ys @ [y]" using assms(1) by (cases m rule: rev_cases) auto
  have x: "\<not> is_space x" using assms(2) m by simp
  have y: "\<not> is_space y" using assms(3) m' by simp
  have 1: "dropWhile is_space (a @ m @ b) = dropWhile is_space a @ m @ b"
    using x by (simp add: m dropWhile_append3)
  have 2: "rev (dropWhile is_space a @ m @ b) = rev b @ y # (rev ys @ rev (dropWhile is_space a))"
    by (simp add: m')
  have 3: "dropWhile is_space (rev b @ y # (rev ys @ rev (dropWhile is_space a)))
      = dropWhile is_space (rev b) @ y # (rev ys @ rev (dropWhile is_space a))"
    using y by (rule dropWhile_append3)
  show ?thesis
    unfolding py_strip_def 1 2 3 by (simp add: m')
qed

lemma scan_filter:
  "scan_lines d events lines = scan_lines d events (filter contains_range lines)"
proof (induction lines arbitrary: events)
  case Nil
  show ?case by simp
next
  case (Cons l ls)
  show ?case
  proof (cases "contains_range l")
    case True
    then show ?thesis using Cons.IH by simp
  next
    case False
    then show ?thesis using Cons.IH [of events] re_search_None_iff [of l] by simp
  qed
qed

lemma scan_length:
  "length (scan_lines d events lines) = length events + length (filter contains_range lines)"
proof (induction lines arbitrary: events)
  case Nil
  show ?case by simp
next
  case (Cons l ls)
  show ?case
    using re_search_None_iff [of l] by (auto simp add: Cons.IH split: option.splits)
qed

lemma scan_drop_line:
  "\<not> contains_range line \<Longrightarrow>
   scan_lines d events (before @ line # after) = scan_lines d events (before @ after)"
  using scan_filter [of d events "before @ line # after"] scan_filter [of d events "before @ after"]
  by simp

lemma scan_member:
  assumes "c \<in> set (scan_lines d [] lines)"
  shows "\<exists>line g. line \<in> set lines \<and> re_search line = Some g \<and> c = mk_event d g"
proof -
  from assms scan_lines_append [of d "[]" lines]
  obtain line where l: "line \<in> set lines" and c: "c \<in> set (scan_lines d [] [line])" by auto
  then show ?thesis by (cases "re_search line") auto
qed

lemma then_do_simps:
  "then_do (Inl e) f = Inl e" "then_do (Inr x) f = f x"
  by (simp_all add: then_do_def)

lemma remove_Z_no_Z: "90 \<notin> set (remove_Z s)"
  by (simp add: remove_Z_def)

lemma export_file_text:
  assumes "export lib user_id titles starts ends selected schedule_name = Inr (FileResponse r)"
  shows "\<exists>cal. ics_fixed r = remove_Z (serialize lib cal)"
  using assms
  by (auto simp add: export_def split: if_splits sum.splits prod.splits)

lemmas export_eval = export_def missing_fields_def export_item_def then_do_simps py_index_def
  after_T_def
  demo_calendar_def demo_event_def crlf_def remove_Z_def uni_def

lemma remove_Z_id: "90 \<notin> set s \<Longrightarrow> remove_Z s = s"
  by (induction s) (auto simp add: remove_Z_def)

section \<open>The claims\<close>

text \<open>
  C1. A line that is a time range followed by text (each token one or two digits, a colon
  or a period, two digits; the tokens joined by a hyphen or an en-dash with optional white
  space around it) gives exactly one candidate: its time label is the two tokens as
  written, joined by a hyphen; its two timestamps are the reference date, \<open>T\<close>, the
  token with a period turned into a colon, and \<open>:00\<close>; its title is the rest of the
  line after the second token, stripped of white space at both ends.
\<close>

theorem time_range_line_gives_one_candidate:
  assumes "time_token t1" and "time_token t2"
    and "list_all is_space w1" and "list_all is_space w2"
    and "d = 45 \<or> d = 8211"
    and "10 \<notin> set rest"
  shows "scan_lines date_str [] [t1 @ w1 @ [d] @ w2 @ t2 @ rest] =
    [\<lparr> title = py_strip rest,
       time = t1 @ uni ''-'' @ t2,
       s_iso = date_str @ uni ''T'' @ replace_dot t1 @ uni '':00'',
       e_iso = date_str @ uni ''T'' @ replace_dot t2 @ uni '':00'' \<rparr>]"
proof -
  have "time_range t1 t2 (t1 @ w1 @ [d] @ w2 @ t2)"
    using assms by (auto simp add: time_range_def)
  from scan_range_line [OF this, of "[]" rest date_str] assms(6)
  show ?thesis by (simp add: candidate_of_def)
qed

theorem time_range_line_gives_one_candidate_witness:
  "scan_lines (uni ''2024-05-01'') [] [uni ''09:00-10:30 Math Lecture''] =
     [\<lparr> title = uni ''Math Lecture'', time = uni ''09:00-10:30'',
        s_iso = uni ''2024-05-01T09:00:00'', e_iso = uni ''2024-05-01T10:30:00'' \<rparr>]
   \<and> scan_lines (uni ''2024-05-01'') [] [uni ''14.00 '' @ [8211] @ uni '' 15.00 Lab Session''] =
     [\<lparr> title = uni ''Lab Session'', time = uni ''14.00-15.00'',
        s_iso = uni ''2024-05-01T14:00:00'', e_iso = uni ''2024-05-01T15:00:00'' \<rparr>]"
  using
    time_range_line_gives_one_candidate [of "uni ''09:00''" "uni ''10:30''" "[]" "[]" 45
      "uni '' Math Lecture''" "uni ''2024-05-01''"]
    time_range_line_gives_one_candidate [of "uni ''14.00''" "uni ''15.00''" "uni '' ''" "uni '' ''" 8211
      "uni '' Lab Session''" "uni ''2024-05-01''"]
  by (simp add: text_eval)

text \<open>
  C3. In a line with more than one time range the matcher takes the leftmost one: the
  range before which no range begins gives the start and the end, and the title is all
  the text after it up to the end of the line, stripped. A later time range in that text
  is therefore part of the title. The line still gives exactly one candidate.
\<close>

theorem leftmost_time_range_wins:
  assumes "time_range t1 t2 r"
    and "\<forall>i<length pre. \<not> range_at (drop i (pre @ r @ rest))"
    and "10 \<notin> set rest"
  shows "scan_lines date_str [] [pre @ r @ rest] = [candidate_of date_str t1 t2 rest]
    \<and> title (candidate_of date_str t1 t2 rest) = py_strip rest
    \<and> (\<forall>a r' b u1 u2. rest = a @ r' @ b \<and> time_range u1 u2 r' \<longrightarrow>
          (\<exists>a' b'. py_strip rest = a' @ r' @ b'))"
proof (intro conjI allI impI)
  show "scan_lines date_str [] [pre @ r @ rest] = [candidate_of date_str t1 t2 rest]"
    using assms by (rule scan_range_line)
  show "title (candidate_of date_str t1 t2 rest) = py_strip rest"
    by (simp add: candidate_of_def)
next
  fix a r' b u1 u2
  assume h: "rest = a @ r' @ b \<and> time_range u1 u2 r'"
  then have "r' \<noteq> []" "\<not> is_space (hd r')" "\<not> is_space (last r')"
    using time_range_ends [of u1 u2 r'] by simp_all
  from strip_keeps_core [OF this, of a b] h
  show "\<exists>a' b'. py_strip rest = a' @ r' @ b'" by blast
qed

theorem leftmost_time_range_wins_witness:
  "scan_lines (uni ''2024-05-01'') [] [uni ''Mon 09:00-10:00 A 11:00-12:00 B''] =
     [\<lparr> title = uni ''A 11:00-12:00 B'', time = uni ''09:00-10:00'',
        s_iso = uni ''2024-05-01T09:00:00'', e_iso = uni ''2024-05-01T10:00:00'' \<rparr>]"
proof -
  have r: "time_range (uni ''09:00'') (uni ''10:00'') (uni ''09:00'' @ [] @ [45] @ [] @ uni ''10:00'')"
    by (rule time_rangeI) (simp_all add: text_eval)
  have l: "\<forall>i<length (uni ''Mon '').
      \<not> range_at (drop i (uni ''Mon '' @ (uni ''09:00'' @ [] @ [45] @ [] @ uni ''10:00'') @ uni '' A 11:00-12:00 B''))"
  proof (intro allI impI)
    fix i :: nat
    assume "i < length (uni ''Mon '')"
    then consider "i = 0" | "i = 1" | "i = 2" | "i = 3" by (simp add: uni_def) arith
    then show "\<not> range_at (drop i (uni ''Mon '' @ (uni ''09:00'' @ [] @ [45] @ [] @ uni ''10:00'') @ uni '' A 11:00-12:00 B''))"
      by cases (simp_all add: range_at_iff first_way_def tok_split_def text_eval)
  qed
  have n: "10 \<notin> set (uni '' A 11:00-12:00 B'')" by (simp add: uni_def)
  from leftmost_time_range_wins [OF r l n, of "uni ''2024-05-01''"]
  show ?thesis by (simp add: candidate_of_def text_eval)
qed

text \<open>The same on a line where other text comes before the first range.\<close>

lemma range_after_other_text:
  "scan_lines (uni ''2024-05-01'') [] [uni ''Room 5 9.00 - 10:30  Math 11:00-12:00 B ''] =
     [\<lparr> title = uni ''Math 11:00-12:00 B'', time = uni ''9.00-10:30'',
        s_iso = uni ''2024-05-01T9:00:00'', e_iso = uni ''2024-05-01T10:30:00'' \<rparr>]"
  by (simp add: match_eval)

text \<open>
  C4. A line without a time range gives no candidate: alone it yields the empty list, and
  taking it out of a document changes nothing. The candidates of a document are those of
  its lines that contain a time range, one for each such line; the other lines leave no
  trace in the result.
\<close>

theorem line_without_range_gives_nothing:
  assumes "\<not> contains_range line"
  shows "scan_lines date_str [] [line] = []
    \<and> scan_lines date_str events (before @ line # after) = scan_lines date_str events (before @ after)
    \<and> scan_lines date_str [] lines = scan_lines date_str [] (filter contains_range lines)
    \<and> length (scan_lines date_str [] lines) = length (filter contains_range lines)"
  using assms scan_no_range [OF assms, of date_str "[]" "[]"] scan_drop_line [OF assms]
    scan_filter [of date_str "[]" lines] scan_length [of date_str "[]" lines]
  by simp

theorem line_without_range_gives_nothing_witness:
  "\<not> contains_range (uni ''Lunch Break'')
   \<and> scan_lines (uni ''2024-05-01'') [] [uni ''Lunch Break''] = []
   \<and> scan_lines (uni ''2024-05-01'') [] [uni ''09:00-10:30 Math Lecture'', uni ''Lunch Break'']
     = scan_lines (uni ''2024-05-01'') [] [uni ''09:00-10:30 Math Lecture'']"
proof -
  have "re_search (uni ''Lunch Break'') = None" by (simp add: match_eval)
  then have h: "\<not> contains_range (uni ''Lunch Break'')" by (simp add: re_search_None_iff)
  from line_without_range_gives_nothing [OF h, of "uni ''2024-05-01''" "[]"
      "[uni ''09:00-10:30 Math Lecture'']" "[]" "[]"] h
  show ?thesis by simp
qed

text \<open>
  C5. The candidates come in the order of their lines: the result of \<open>parse_content\<close> is
  the concatenation, line after line of the extracted text, of what each line gives by
  itself. Nothing is sorted by time and a repeated line gives its candidate again.
\<close>

theorem candidates_keep_line_order:
  assumes "extract_text lib file_bytes filename = Inr text"
  shows "parse_content lib file_bytes filename date_str =
    Inr (concat (map (\<lambda>line. scan_lines date_str [] [line]) (split_nl text)))"
  using assms scan_lines_append [of date_str "[]" "split_nl text"]
  by (simp add: parse_content_def)

theorem candidates_keep_line_order_witness:
  "parse_content demo_parsers
     (uni ''14:00-15:00 B'' @ [10] @ uni ''09:00-10:00 A'' @ [10] @ uni ''14:00-15:00 B'')
     (uni ''plan.html'') (uni ''2024-05-01'') =
   Inr [\<lparr> title = uni ''B'', time = uni ''14:00-15:00'',
            s_iso = uni ''2024-05-01T14:00:00'', e_iso = uni ''2024-05-01T15:00:00'' \<rparr>,
        \<lparr> title = uni ''A'', time = uni ''09:00-10:00'',
            s_iso = uni ''2024-05-01T09:00:00'', e_iso = uni ''2024-05-01T10:00:00'' \<rparr>,
        \<lparr> title = uni ''B'', time = uni ''14:00-15:00'',
            s_iso = uni ''2024-05-01T14:00:00'', e_iso = uni ''2024-05-01T15:00:00'' \<rparr>]"
proof -
  have e: "extract_text demo_parsers
      (uni ''14:00-15:00 B'' @ [10] @ uni ''09:00-10:00 A'' @ [10] @ uni ''14:00-15:00 B'')
      (uni ''plan.html'')
    = Inr (uni ''14:00-15:00 B'' @ [10] @ uni ''09:00-10:00 A'' @ [10] @ uni ''14:00-15:00 B'')"
    by (simp add: extract_text_def demo_parsers_def endswith_def uni_def)
  show ?thesis
    unfolding candidates_keep_line_order [OF e]
    by (simp add: match_eval)
qed

text \<open>
  C6. A file name that ends neither in \<open>.pdf\<close> nor in \<open>.html\<close> gives the empty text
  and the empty list of candidates, as an ordinary result and whatever the bytes are: no
  parser is called and nothing is raised.
\<close>

theorem other_extension_gives_no_candidates:
  assumes "\<not> endswith filename (uni ''.pdf'')" and "\<not> endswith filename (uni ''.html'')"
  shows "extract_text lib file_bytes filename = Inr []
    \<and> parse_content lib file_bytes filename date_str = Inr []"
  using assms re_search_Nil by (simp add: parse_content_def extract_text_def)

theorem other_extension_gives_no_candidates_witness:
  "extract_text demo_parsers (uni ''09:00-10:30 Math Lecture'') (uni ''notes.txt'') = Inr []
   \<and> parse_content demo_parsers (uni ''09:00-10:30 Math Lecture'') (uni ''notes.txt'')
       (uni ''2024-05-01'') = Inr []"
proof -
  have a: "\<not> endswith (uni ''notes.txt'') (uni ''.pdf'')" by (simp add: endswith_def uni_def)
  have b: "\<not> endswith (uni ''notes.txt'') (uni ''.html'')" by (simp add: endswith_def uni_def)
  show ?thesis by (rule other_extension_gives_no_candidates [OF a b])
qed

text \<open>
  C9. Both timestamps of a candidate carry the reference date: for every candidate of
  every document there are two time tokens such that the start is the date, \<open>T\<close>, the
  first token and \<open>:00\<close>, and the end is the same date, \<open>T\<close>, the second token and
  \<open>:00\<close>. A range whose end clock time is before its start clock time is matched like
  any other: its candidate is produced, with the end on the same day and so before the
  start; nothing moves it to the next day.
\<close>

theorem both_stamps_on_reference_date:
  "(c \<in> set (scan_lines date_str [] lines) \<longrightarrow>
      (\<exists>t1 t2. time_token t1 \<and> time_token t2 \<and> time c = t1 @ uni ''-'' @ t2 \<and>
         s_iso c = date_str @ uni ''T'' @ replace_dot t1 @ uni '':00'' \<and>
         e_iso c = date_str @ uni ''T'' @ replace_dot t2 @ uni '':00''))
   \<and> (time_range t1 t2 r \<and> clock_minutes t2 < clock_minutes t1 \<and> 10 \<notin> set rest \<longrightarrow>
      (\<exists>c'. scan_lines date_str [] [r @ rest] = [c'] \<and>
         s_iso c' = date_str @ uni ''T'' @ replace_dot t1 @ uni '':00'' \<and>
         e_iso c' = date_str @ uni ''T'' @ replace_dot t2 @ uni '':00''))"
proof (intro conjI impI)
  assume "c \<in> set (scan_lines date_str [] lines)"
  from scan_member [OF this] obtain line g where
    g: "re_search line = Some g" and c: "c = mk_event date_str g" by blast
  from re_search_SomeD [OF g] obtain s where s: "first_way s = Some g" by blast
  obtain g1 g2 g3 where gg: "g = (g1, g2, g3)" by (cases g) auto
  from first_way_SomeD [OF s [unfolded gg]] have "time_token g1" "time_token g2" by auto
  then show "\<exists>t1 t2. time_token t1 \<and> time_token t2 \<and> time c = t1 @ uni ''-'' @ t2 \<and>
         s_iso c = date_str @ uni ''T'' @ replace_dot t1 @ uni '':00'' \<and>
         e_iso c = date_str @ uni ''T'' @ replace_dot t2 @ uni '':00''"
    unfolding c gg by (auto simp add: mk_event_def)
next
  assume h: "time_range t1 t2 r \<and> clock_minutes t2 < clock_minutes t1 \<and> 10 \<notin> set rest"
  then have "scan_lines date_str [] [[] @ r @ rest] = [candidate_of date_str t1 t2 rest]"
    by (intro scan_range_line) simp_all
  then show "\<exists>c'. scan_lines date_str [] [r @ rest] = [c'] \<and>
         s_iso c' = date_str @ uni ''T'' @ replace_dot t1 @ uni '':00'' \<and>
         e_iso c' = date_str @ uni ''T'' @ replace_dot t2 @ uni '':00''"
    by (simp add: candidate_of_def)
qed

theorem both_stamps_on_reference_date_witness:
  "scan_lines (uni ''2024-05-01'') [] [uni ''23:00-01:00 Party''] =
     [\<lparr> title = uni ''Party'', time = uni ''23:00-01:00'',
        s_iso = uni ''2024-05-01T23:00:00'', e_iso = uni ''2024-05-01T01:00:00'' \<rparr>]
   \<and> clock_minutes (uni ''01:00'') < clock_minutes (uni ''23:00'')
   \<and> (\<exists>c'. scan_lines (uni ''2024-05-01'') [] [uni ''23:00-01:00 Party''] = [c'] \<and>
         s_iso c' = uni ''2024-05-01T23:00:00'' \<and> e_iso c' = uni ''2024-05-01T01:00:00'')
   \<and> (\<exists>t1 t2. time_token t1 \<and> time_token t2 \<and>
         uni ''2024-05-01T23:00:00'' = uni ''2024-05-01'' @ uni ''T'' @ replace_dot t1 @ uni '':00'' \<and>
         uni ''2024-05-01T01:00:00'' = uni ''2024-05-01'' @ uni ''T'' @ replace_dot t2 @ uni '':00'')"
proof -
  let ?c = "\<lparr> title = uni ''Party'', time = uni ''23:00-01:00'',
        s_iso = uni ''2024-05-01T23:00:00'', e_iso = uni ''2024-05-01T01:00:00'' \<rparr>"
  have ev: "scan_lines (uni ''2024-05-01'') [] [uni ''23:00-01:00 Party''] = [?c]"
    by (simp add: match_eval)
  have cm: "clock_minutes (uni ''01:00'') < clock_minutes (uni ''23:00'')"
    by (simp add: clock_minutes_def digit_value_def uni_def)
  have r: "time_range (uni ''23:00'') (uni ''01:00'') (uni ''23:00'' @ [] @ [45] @ [] @ uni ''01:00'')"
    by (rule time_rangeI) (simp_all add: text_eval)
  have n: "10 \<notin> set (uni '' Party'')" by (simp add: uni_def)
  have m: "?c \<in> set (scan_lines (uni ''2024-05-01'') [] [uni ''23:00-01:00 Party''])"
    unfolding ev by simp
  note t = both_stamps_on_reference_date [of ?c "uni ''2024-05-01''" "[uni ''23:00-01:00 Party'']"
      "uni ''23:00''" "uni ''01:00''" "uni ''23:00'' @ [] @ [45] @ [] @ uni ''01:00''" "uni '' Party''"]
  have 1: "\<exists>t1 t2. time_token t1 \<and> time_token t2 \<and>
         uni ''2024-05-01T23:00:00'' = uni ''2024-05-01'' @ uni ''T'' @ replace_dot t1 @ uni '':00'' \<and>
         uni ''2024-05-01T01:00:00'' = uni ''2024-05-01'' @ uni ''T'' @ replace_dot t2 @ uni '':00''"
    using t [THEN conjunct1, rule_format, OF m] by auto
  have 2: "\<exists>c'. scan_lines (uni ''2024-05-01'') [] [uni ''23:00-01:00 Party''] = [c'] \<and>
         s_iso c' = uni ''2024-05-01T23:00:00'' \<and> e_iso c' = uni ''2024-05-01T01:00:00''"
    using t [THEN conjunct2, rule_format, OF conjI [OF r conjI [OF cm n]]]
    by (simp add: uni_def replace_dot_def)
  show ?thesis using ev cm 1 2 by blast
qed

text \<open>
  C10. Only the shape of a time token is checked, not its value: the line
  \<open>27:99-28.77 Impossible\<close> gives a candidate, with the start \<open>27:99:00\<close> and the end
  \<open>28:77:00\<close> on the reference date, though neither is a time of day.
\<close>

theorem clock_values_are_not_checked:
  "scan_lines date_str [] [uni ''27:99-28.77 Impossible''] =
     [\<lparr> title = uni ''Impossible'', time = uni ''27:99-28.77'',
        s_iso = date_str @ uni ''T27:99:00'', e_iso = date_str @ uni ''T28:77:00'' \<rparr>]
   \<and> \<not> clock_in_range (uni ''27:99'') \<and> \<not> clock_in_range (uni ''28.77'')"
  by (simp add: match_eval clock_in_range_def digit_value_def)

theorem clock_values_are_not_checked_witness:
  "scan_lines (uni ''2024-05-01'') [] [uni ''27:99-28.77 Impossible''] =
     [\<lparr> title = uni ''Impossible'', time = uni ''27:99-28.77'',
        s_iso = uni ''2024-05-01T27:99:00'', e_iso = uni ''2024-05-01T28:77:00'' \<rparr>]"
  using clock_values_are_not_checked [of "uni ''2024-05-01''"] by (simp add: uni_def)

text \<open>
  C2. The claim: the exported text has one VEVENT block for each selected event, the name
  of each is the title as given, and no \<open>Z\<close> ends a timestamp line. The code takes every
  \<open>Z\<close> out of the whole text, not only those of the timestamps: whatever the calendar
  library writes, the exported text has no \<open>Z\<close> at all, so a title with a \<open>Z\<close> in it is
  nowhere in the text as it was given.
\<close>

theorem export_takes_Z_out_of_titles:
  assumes "export lib user_id titles starts ends selected schedule_name = Inr (FileResponse r)"
  shows "90 \<notin> set (ics_fixed r)
    \<and> (\<forall>t. 90 \<in> set t \<longrightarrow> \<not> (\<exists>a b. ics_fixed r = a @ t @ b))"
proof -
  from export_file_text [OF assms] obtain cal where "ics_fixed r = remove_Z (serialize lib cal)"
    by blast
  then have z: "90 \<notin> set (ics_fixed r)" by (simp add: remove_Z_no_Z)
  then show ?thesis by auto
qed

theorem export_takes_Z_out_of_titles_witness:
  "export demo_calendar (Some 1) [uni ''Zoo''] [uni ''2024-05-01T09:00:00'']
      [uni ''2024-05-01T10:00:00''] [0] (uni ''plan'') =
     Inr (FileResponse
       \<lparr> ics_fixed =
           uni ''BEGIN:VCALENDAR'' @ crlf @ uni ''VERSION:2.0'' @ crlf @
           uni ''BEGIN:VEVENT'' @ crlf @
           uni ''DTEND:20240501T100000'' @ crlf @
           uni ''DTSTART:20240501T090000'' @ crlf @
           uni ''SUMMARY:oo'' @ crlf @
           uni ''END:VEVENT'' @ crlf @ uni ''END:VCALENDAR'',
         saved_events = [(uni ''Zoo'', uni ''09:00'')],
         download_name = uni ''plan.ics'' \<rparr>)
   \<and> \<not> (\<exists>a b.
         uni ''BEGIN:VCALENDAR'' @ crlf @ uni ''VERSION:2.0'' @ crlf @
         uni ''BEGIN:VEVENT'' @ crlf @
         uni ''DTEND:20240501T100000'' @ crlf @
         uni ''DTSTART:20240501T090000'' @ crlf @
         uni ''SUMMARY:oo'' @ crlf @
         uni ''END:VEVENT'' @ crlf @ uni ''END:VCALENDAR'' = a @ uni ''Zoo'' @ b)"
proof -
  let ?r = "\<lparr> ics_fixed =
           uni ''BEGIN:VCALENDAR'' @ crlf @ uni ''VERSION:2.0'' @ crlf @
           uni ''BEGIN:VEVENT'' @ crlf @
           uni ''DTEND:20240501T100000'' @ crlf @
           uni ''DTSTART:20240501T090000'' @ crlf @
           uni ''SUMMARY:oo'' @ crlf @
           uni ''END:VEVENT'' @ crlf @ uni ''END:VCALENDAR'',
         saved_events = [(uni ''Zoo'', uni ''09:00'')],
         download_name = uni ''plan.ics'' \<rparr>"
  have e: "export demo_calendar (Some 1) [uni ''Zoo''] [uni ''2024-05-01T09:00:00'']
      [uni ''2024-05-01T10:00:00''] [0] (uni ''plan'') = Inr (FileResponse ?r)"
    by (simp add: export_eval)
  have z: "90 \<in> set (uni ''Zoo'')" by (simp add: uni_def)
  from export_takes_Z_out_of_titles [OF e, THEN conjunct2, rule_format, OF z] e
  show ?thesis by simp
qed




end
